theory Spec2Isabelle
  imports Main
begin

section \<open>Go values as the event bus sees them\<close>

text \<open>
  The bus (package eventbus) handles its callbacks and arguments as \<^verbatim>\<open>interface{}\<close>
  values and inspects them through package reflect. \<open>gotype\<close> is a fragment of Go's
  types, enough for the values of the properties below. A function type has its
  parameter types, its variadic flag and its result types; a channel type has its
  direction; a defined type (\<^verbatim>\<open>type MyFunc func(int)\<close>) is \<open>TNamed\<close> with its qualified
  name and its underlying type. Two Go types are identical exactly when their \<open>gotype\<close>
  values are equal: a defined type differs from every other type, its underlying type
  included, and type literals are identical when they are built alike from identical
  types. The runtime keeps one descriptor for each type, so that the comparison of two
  \<^verbatim>\<open>reflect.Type\<close> values with \<^verbatim>\<open>==\<close> is this equality.
\<close>

datatype chandir = BothDir | RecvDir | SendDir

datatype gotype =
    TBool
  | TInt
  | TString
  | TInterface
  | TPtr gotype
  | TSlice gotype
  | TChan chandir gotype
  | TMap gotype gotype
  | TFunc "gotype list" bool "gotype list"
  | TNamed string gotype

datatype kind = KBool | KInt | KString | KInterface | KPtr | KSlice | KChan | KMap | KFunc

fun Kind :: "gotype \<Rightarrow> kind" where
  "Kind TBool = KBool"
| "Kind TInt = KInt"
| "Kind TString = KString"
| "Kind TInterface = KInterface"
| "Kind (TPtr t) = KPtr"
| "Kind (TSlice t) = KSlice"
| "Kind (TChan dir t) = KChan"
| "Kind (TMap k v) = KMap"
| "Kind (TFunc ps variadic rs) = KFunc"
| "Kind (TNamed name t) = Kind t"

text \<open>
  The payload of a value. A function value is its code pointer (what
  \<^verbatim>\<open>reflect.Value.Pointer\<close> returns) together with the identity of the closure
  environment it captured: two closures made from one function literal share the code
  pointer and differ in the environment. \<open>DNil\<close> is the nil pointer, slice, map,
  channel, function or interface.
\<close>

datatype data =
    DNil
  | DBool bool
  | DInt int
  | DStr string
  | DRef nat
  | DFunc nat nat

text \<open>
  An \<^verbatim>\<open>interface{}\<close> is either nil or a value with its dynamic type; a
  \<^verbatim>\<open>reflect.Value\<close> is either the zero Value (\<open>Invalid\<close>) or a typed value.
\<close>

datatype val = Nil | Val gotype data

datatype rvalue = Invalid | RV gotype data

text \<open>Runtime panics raised by the bus or below it, and panics of a handler's own.\<close>

datatype fault =
    NilPointerDereference
  | TypeOnZeroValue
  | PointerOnZeroValue
  | PointerOfKind kind
  | InOfNonFunc
  | IndexOutOfRange nat nat
  | CallOfNonFunc
  | CallOfNilFunc
  | HandlerPanic string

text \<open>\<^verbatim>\<open>reflect.TypeOf\<close>: the nil interface has the nil Type.\<close>

fun TypeOf :: "val \<Rightarrow> gotype option" where
  "TypeOf Nil = None"
| "TypeOf (Val t d) = Some t"

text \<open>\<^verbatim>\<open>reflect.ValueOf\<close>: the nil interface gives the zero Value.\<close>

fun ValueOf :: "val \<Rightarrow> rvalue" where
  "ValueOf Nil = Invalid"
| "ValueOf (Val t d) = RV t d"

text \<open>\<^verbatim>\<open>Value.Type\<close> panics on the zero Value.\<close>

fun Type :: "rvalue \<Rightarrow> fault + gotype" where
  "Type Invalid = Inl TypeOnZeroValue"
| "Type (RV t d) = Inr t"

text \<open>
  \<^verbatim>\<open>Value.Pointer\<close> panics unless the kind is Chan, Func, Map, Ptr or Slice; the nil
  value of such a kind has pointer 0.
\<close>

fun data_pointer :: "data \<Rightarrow> nat" where
  "data_pointer (DRef p) = p"
| "data_pointer (DFunc p env) = p"
| "data_pointer d = 0"

fun Pointer :: "rvalue \<Rightarrow> fault + nat" where
  "Pointer Invalid = Inl PointerOnZeroValue"
| "Pointer (RV t d) =
     (if Kind t \<in> {KChan, KFunc, KMap, KPtr, KSlice} then Inr (data_pointer d)
      else Inl (PointerOfKind (Kind t)))"

text \<open>
  \<^verbatim>\<open>Type.In(i)\<close>: the type of the i-th parameter of a function type. It panics on a
  type that is no function type and on an index outside the parameter list; the variadic
  parameter counts as one parameter of slice type. A defined function type has the
  parameters of its underlying type.
\<close>

fun NumIn :: "gotype \<Rightarrow> nat" where
  "NumIn (TFunc ps variadic rs) = length ps"
| "NumIn (TNamed name t) = NumIn t"
| "NumIn t = 0"

fun In :: "gotype \<Rightarrow> nat \<Rightarrow> fault + gotype" where
  "In (TFunc ps variadic rs) i =
     (if i < length ps then Inr (ps ! i) else Inl (IndexOutOfRange i (length ps)))"
| "In (TNamed name t) i = In t i"
| "In t i = Inl InOfNonFunc"

text \<open>\<^verbatim>\<open>reflect.New(t).Elem()\<close>: the zero value of type \<open>t\<close>.\<close>

fun zero_data :: "gotype \<Rightarrow> data" where
  "zero_data TBool = DBool False"
| "zero_data TInt = DInt 0"
| "zero_data TString = DStr []"
| "zero_data (TNamed name t) = zero_data t"
| "zero_data t = DNil"

definition Zero :: "gotype \<Rightarrow> rvalue" where
  "Zero t = RV t (zero_data t)"

text \<open>
  What running code does, on a logical clock that starts when the code starts: it
  completes after some time with a result, it panics, or it never returns.
\<close>

datatype 'a exec = Completes nat 'a | Panics fault | Hangs

text \<open>
  \<^verbatim>\<open>reflect.Value.Call\<close> and the handlers it runs belong to the Go runtime and to the
  bus's clients. The bus is modelled over any behaviour of them, a parameter
  \<open>invoke\<close> of the functions that call a handler; \<open>Call\<close> adds the two checks that
  \<^verbatim>\<open>Value.Call\<close> makes on the callee itself.
\<close>

type_synonym invoker = "nat \<Rightarrow> nat \<Rightarrow> rvalue list \<Rightarrow> rvalue list exec"

fun Call :: "invoker \<Rightarrow> rvalue \<Rightarrow> rvalue list \<Rightarrow> rvalue list exec" where
  "Call invoke Invalid ins = Panics CallOfNonFunc"
| "Call invoke (RV t d) ins =
     (if Kind t \<noteq> KFunc then Panics CallOfNonFunc
      else case d of DFunc p env \<Rightarrow> invoke p env ins | _ \<Rightarrow> Panics CallOfNilFunc)"

section \<open>The bus\<close>

text \<open>
  \<^verbatim>\<open>eventHandler\<close> holds the callback as a \<^verbatim>\<open>reflect.Value\<close>; its embedded mutex
  is never locked by the bus and is left out. \<^verbatim>\<open>EventBus\<close> holds the handler map; every
  operation runs under the bus's lock from its first to its last statement, so an operation
  is one atomic step on the map.
\<close>

record eventHandler =
  callBack :: rvalue

record EventBus =
  handlers :: "string \<rightharpoonup> eventHandler list"

text \<open>
  The errors the bus returns. Go builds them with \<^verbatim>\<open>fmt.Errorf\<close>; the model keeps
  what each message is built from. \<open>UnknownTopic\<close> stands for the two messages about a
  topic that is not there (of \<^verbatim>\<open>Unsubscribe\<close> and of \<^verbatim>\<open>PublishWithReply\<close>).
\<close>

datatype error =
    NotInvocable kind
  | UnknownTopic string
  | HandlerCountMismatch string nat
  | Timeout string

definition New :: EventBus where
  "New = \<lparr>handlers = Map.empty\<rparr>"

text \<open>
  \<^verbatim>\<open>len(bus.handlers[topic])\<close> and \<^verbatim>\<open>append(bus.handlers[topic], h)\<close> read a missing
  key as the nil slice.
\<close>

definition topic_handlers :: "EventBus \<Rightarrow> string \<Rightarrow> eventHandler list" where
  "topic_handlers bus topic = (case handlers bus topic of None \<Rightarrow> [] | Some hs \<Rightarrow> hs)"

text \<open>
  \<^verbatim>\<open>doSubscribe\<close>: \<^verbatim>\<open>reflect.TypeOf(fn).Kind()\<close> calls a method on the nil Type when
  \<open>fn\<close> is the nil interface, which panics. The result is the panic or the returned
  error (\<open>None\<close> for Go's nil error), with the bus after the call.
\<close>

definition doSubscribe ::
    "EventBus \<Rightarrow> string \<Rightarrow> val \<Rightarrow> eventHandler \<Rightarrow> (fault + error option) \<times> EventBus" where
  "doSubscribe bus topic fn handler =
     (case TypeOf fn of
        None \<Rightarrow> (Inl NilPointerDereference, bus)
      | Some t \<Rightarrow>
          if \<not> (Kind t = KFunc) then (Inr (Some (NotInvocable (Kind t))), bus)
          else (Inr None,
                bus\<lparr>handlers := (handlers bus)(topic \<mapsto> topic_handlers bus topic @ [handler])\<rparr>))"

definition Subscribe ::
    "EventBus \<Rightarrow> string \<Rightarrow> val \<Rightarrow> (fault + error option) \<times> EventBus" where
  "Subscribe bus topic fn = doSubscribe bus topic fn \<lparr>callBack = ValueOf fn\<rparr>"

definition HasCallback :: "EventBus \<Rightarrow> string \<Rightarrow> bool" where
  "HasCallback bus topic =
     (case handlers bus topic of
        Some hs \<Rightarrow> length hs > 0
      | None \<Rightarrow> False)"

text \<open>
  \<^verbatim>\<open>findHandlerIdx\<close>: the loop over the topic's handlers, from index \<open>idx\<close> on. Both
  \<^verbatim>\<open>Type()\<close> calls are evaluated before the comparison; the \<^verbatim>\<open>Pointer()\<close> calls only
  when the types are equal.
\<close>

fun findHandlerLoop :: "eventHandler list \<Rightarrow> nat \<Rightarrow> rvalue \<Rightarrow> fault + int" where
  "findHandlerLoop [] idx callback = Inr (- 1)"
| "findHandlerLoop (handler # rest) idx callback =
     (case Type (callBack handler) of
        Inl f \<Rightarrow> Inl f
      | Inr ht \<Rightarrow>
         (case Type callback of
            Inl f \<Rightarrow> Inl f
          | Inr ct \<Rightarrow>
             if ht = ct then
               (case Pointer (callBack handler) of
                  Inl f \<Rightarrow> Inl f
                | Inr hp \<Rightarrow>
                   (case Pointer callback of
                      Inl f \<Rightarrow> Inl f
                    | Inr cp \<Rightarrow>
                       if hp = cp then Inr (int idx)
                       else findHandlerLoop rest (Suc idx) callback))
             else findHandlerLoop rest (Suc idx) callback))"

definition findHandlerIdx :: "EventBus \<Rightarrow> string \<Rightarrow> rvalue \<Rightarrow> fault + int" where
  "findHandlerIdx bus topic callback =
     (case handlers bus topic of
        Some hs \<Rightarrow> findHandlerLoop hs 0 callback
      | None \<Rightarrow> Inr (- 1))"

text \<open>
  \<^verbatim>\<open>removeHandler\<close>: shifts the elements after \<open>idx\<close> one place down and cuts the
  last one off; it does nothing for a missing topic or an index out of range.
\<close>

definition removeHandler :: "EventBus \<Rightarrow> string \<Rightarrow> int \<Rightarrow> EventBus" where
  "removeHandler bus topic idx =
     (case handlers bus topic of
        None \<Rightarrow> bus
      | Some hs \<Rightarrow>
          let l = int (length hs) in
          if \<not> (0 \<le> idx \<and> idx < l) then bus
          else bus\<lparr>handlers :=
                 (handlers bus)(topic \<mapsto> take (nat idx) hs @ drop (nat idx + 1) hs)\<rparr>)"

definition Unsubscribe ::
    "EventBus \<Rightarrow> string \<Rightarrow> val \<Rightarrow> (fault + error option) \<times> EventBus" where
  "Unsubscribe bus topic handler =
     (case handlers bus topic of
        Some hs \<Rightarrow>
          if length hs > 0 then
            (case findHandlerIdx bus topic (ValueOf handler) of
               Inl f \<Rightarrow> (Inl f, bus)
             | Inr idx \<Rightarrow> (Inr None, removeHandler bus topic idx))
          else (Inr (Some (UnknownTopic topic)), bus)
      | None \<Rightarrow> (Inr (Some (UnknownTopic topic)), bus))"

section \<open>Publishing\<close>

text \<open>
  \<^verbatim>\<open>setUpPublish\<close>: the loop over the arguments, from position \<open>i\<close> on. A nil
  argument is replaced by the zero value of the type of parameter \<open>i\<close>, and
  \<^verbatim>\<open>funcType.In(i)\<close> panics when there is no such parameter; the loop stops at the first
  panic.
\<close>

fun setUpLoop :: "gotype \<Rightarrow> nat \<Rightarrow> val list \<Rightarrow> fault + rvalue list" where
  "setUpLoop funcType i [] = Inr []"
| "setUpLoop funcType i (v # rest) =
     (case (case v of
              Nil \<Rightarrow> (case In funcType i of Inl f \<Rightarrow> Inl f | Inr t \<Rightarrow> Inr (Zero t))
            | Val t d \<Rightarrow> Inr (ValueOf v)) of
        Inl f \<Rightarrow> Inl f
      | Inr passed \<Rightarrow>
         (case setUpLoop funcType (Suc i) rest of
            Inl f \<Rightarrow> Inl f
          | Inr passedRest \<Rightarrow> Inr (passed # passedRest)))"

definition setUpPublish :: "eventHandler \<Rightarrow> val list \<Rightarrow> fault + rvalue list" where
  "setUpPublish callback args =
     (case Type (callBack callback) of
        Inl f \<Rightarrow> Inl f
      | Inr funcType \<Rightarrow> setUpLoop funcType 0 args)"

text \<open>
  A run of code that calls handlers is described by the calls to \<^verbatim>\<open>Value.Call\<close> it
  makes (callee and argument vector, in order) and by how it ends.
\<close>

record 'a run =
  calls :: "(rvalue \<times> rvalue list) list"
  ending :: "'a exec"

text \<open>
  \<^verbatim>\<open>doPublish\<close>: prepares the arguments, calls the handler and drops what it returns.
\<close>

definition doPublish :: "invoker \<Rightarrow> eventHandler \<Rightarrow> string \<Rightarrow> val list \<Rightarrow> unit run" where
  "doPublish invoke handler topic args =
     (case setUpPublish handler args of
        Inl f \<Rightarrow> \<lparr>calls = [], ending = Panics f\<rparr>
      | Inr passedArguments \<Rightarrow>
          \<lparr>calls = [(callBack handler, passedArguments)],
           ending = (case Call invoke (callBack handler) passedArguments of
                       Completes d resultList \<Rightarrow> Completes d ()
                     | Panics f \<Rightarrow> Panics f
                     | Hangs \<Rightarrow> Hangs)\<rparr>)"

text \<open>
  The goroutines the bus starts: \<^verbatim>\<open>go bus.doPublish(handler, topic, args...)\<close> in
  \<^verbatim>\<open>Publish\<close> and the function literal of \<^verbatim>\<open>PublishWithReply\<close>, each with the values it
  was started with.
\<close>

datatype task =
    DoPublishTask eventHandler string "val list"
  | ReplyTask eventHandler "val list"

text \<open>
  \<^verbatim>\<open>Publish\<close>: copies the topic's handlers and starts one goroutine for each element
  of the copy, in order. It returns nothing and leaves the bus as it is; the model returns
  the goroutines started.
\<close>

definition Publish :: "EventBus \<Rightarrow> string \<Rightarrow> val list \<Rightarrow> task list" where
  "Publish bus topic args =
     (case handlers bus topic of
        Some hs \<Rightarrow>
          if 0 < length hs then
            (let copyHandlers = hs in map (\<lambda>handler. DoPublishTask handler topic args) copyHandlers)
          else []
      | None \<Rightarrow> [])"

text \<open>
  The body of the goroutine of \<^verbatim>\<open>PublishWithReply\<close>, without its deferred
  \<^verbatim>\<open>recover\<close>: it completes when it has sent the result list to the channel \<open>done\<close>.
\<close>

definition replyBody :: "invoker \<Rightarrow> eventHandler \<Rightarrow> val list \<Rightarrow> (rvalue list) run" where
  "replyBody invoke handler args =
     (case setUpPublish handler args of
        Inl f \<Rightarrow> \<lparr>calls = [], ending = Panics f\<rparr>
      | Inr passedArguments \<Rightarrow>
          \<lparr>calls = [(callBack handler, passedArguments)],
           ending = Call invoke (callBack handler) passedArguments\<rparr>)"

text \<open>
  The goroutine with its deferred function: a panic of the body is recovered and printed
  (\<^verbatim>\<open>PublishWithReply painc (...)\<close>), and nothing is sent. \<open>Sent d rs\<close>: the body
  sends the result list \<open>rs\<close> at time \<open>d\<close>; \<open>Recovered f\<close>: the panic \<open>f\<close> was printed;
  \<open>Silent\<close>: the handler never returns. What a send does after the caller has returned
  and closed the channel is no part of what the caller gets and is not modelled.
\<close>

datatype delivery = Sent nat "rvalue list" | Recovered fault | Silent

definition replyTask :: "invoker \<Rightarrow> eventHandler \<Rightarrow> val list \<Rightarrow> delivery" where
  "replyTask invoke handler args =
     (case ending (replyBody invoke handler args) of
        Completes d resultList \<Rightarrow> Sent d resultList
      | Panics f \<Rightarrow> Recovered f
      | Hangs \<Rightarrow> Silent)"

text \<open>
  What a call of \<^verbatim>\<open>PublishWithReply\<close> gives its caller: the returned value (an
  \<^verbatim>\<open>interface{}\<close> that is nil or holds the \<^verbatim>\<open>reflect.Value\<close> \<^verbatim>\<open>resultList[0]\<close>), the
  returned error, the goroutines it started and the time it was blocked.
\<close>

record reply =
  reply_value :: "rvalue option"
  reply_err :: "error option"
  launched :: "task list"
  waited :: nat

text \<open>
  \<^verbatim>\<open>PublishWithReply\<close>. The \<^verbatim>\<open>select\<close> takes the case that is ready first: the result
  list sent at time \<open>d\<close>, or the timer of \<^verbatim>\<open>time.After(timeout)\<close>, which fires at
  \<open>nat timeout\<close> (at once for a duration that is not positive). When both are ready at
  the same time Go chooses one of them at random; \<open>pick\<close> is that choice (\<open>True\<close> for the
  channel).
\<close>

definition PublishWithReply ::
    "invoker \<Rightarrow> bool \<Rightarrow> EventBus \<Rightarrow> string \<Rightarrow> int \<Rightarrow> val list \<Rightarrow> reply" where
  "PublishWithReply invoke pick bus topic timeout args =
     (case handlers bus topic of
        None \<Rightarrow>
          \<lparr>reply_value = None, reply_err = Some (UnknownTopic topic), launched = [], waited = 0\<rparr>
      | Some hs \<Rightarrow>
          let handlerNum = length hs in
          if handlerNum \<noteq> 1 then
            \<lparr>reply_value = None, reply_err = Some (HandlerCountMismatch topic handlerNum),
             launched = [], waited = 0\<rparr>
          else
            let copyHandlers = hs;
                started = [ReplyTask (copyHandlers ! 0) args];
                expired = \<lparr>reply_value = None, reply_err = Some (Timeout topic),
                           launched = started, waited = nat timeout\<rparr>
            in (case replyTask invoke (copyHandlers ! 0) args of
                  Sent d resultList \<Rightarrow>
                    if d < nat timeout \<or> (d = nat timeout \<and> pick) then
                      (if length resultList = 1 then
                         \<lparr>reply_value = Some (resultList ! 0), reply_err = None,
                          launched = started, waited = d\<rparr>
                       else
                         \<lparr>reply_value = None, reply_err = None, launched = started, waited = d\<rparr>)
                    else expired
                | Recovered f \<Rightarrow> expired
                | Silent \<Rightarrow> expired))"

text \<open>
  The first result of \<^verbatim>\<open>PublishWithReply\<close> has type \<^verbatim>\<open>interface{}\<close>. What such a
  result holds is nothing, a value of the client's program with its dynamic type, or a
  \<^verbatim>\<open>reflect.Value\<close>, which is a struct of package reflect that describes a value and is
  not that value. \<^verbatim>\<open>PublishWithReply\<close> returns \<^verbatim>\<open>resultList[0]\<close> as it stands, an
  element of a \<^verbatim>\<open>[]reflect.Value\<close>.
\<close>

datatype dynamic = HoldsNothing | HoldsValue gotype data | HoldsReflectValue rvalue

definition returned :: "reply \<Rightarrow> dynamic" where
  "returned r =
     (case reply_value r of
        None \<Rightarrow> HoldsNothing
      | Some resultValue \<Rightarrow> HoldsReflectValue resultValue)"

text \<open>What a goroutine does when it runs: the calls it makes to handlers.\<close>

fun task_calls :: "invoker \<Rightarrow> task \<Rightarrow> (rvalue \<times> rvalue list) list" where
  "task_calls invoke (DoPublishTask handler topic args) =
     calls (doPublish invoke handler topic args)"
| "task_calls invoke (ReplyTask handler args) = calls (replyBody invoke handler args)"

section \<open>Histories of a bus\<close>

text \<open>
  The calls a client can make on a bus, and the bus and the set of started goroutines
  after each. A call that panics leaves both as they were.
\<close>

datatype call =
    SubscribeCall string val
  | UnsubscribeCall string val
  | HasCallbackCall string
  | PublishCall string "val list"
  | PublishWithReplyCall string int "val list"

record world =
  the_bus :: EventBus
  goroutines :: "task list"

fun perform :: "invoker \<Rightarrow> bool \<Rightarrow> call \<Rightarrow> world \<Rightarrow> world" where
  "perform invoke pick (SubscribeCall topic fn) w =
     w\<lparr>the_bus := snd (Subscribe (the_bus w) topic fn)\<rparr>"
| "perform invoke pick (UnsubscribeCall topic handler) w =
     w\<lparr>the_bus := snd (Unsubscribe (the_bus w) topic handler)\<rparr>"
| "perform invoke pick (HasCallbackCall topic) w = w"
| "perform invoke pick (PublishCall topic args) w =
     w\<lparr>goroutines := goroutines w @ Publish (the_bus w) topic args\<rparr>"
| "perform invoke pick (PublishWithReplyCall topic timeout args) w =
     w\<lparr>goroutines := goroutines w
          @ launched (PublishWithReply invoke pick (the_bus w) topic timeout args)\<rparr>"

fun perform_all :: "invoker \<Rightarrow> bool \<Rightarrow> call list \<Rightarrow> world \<Rightarrow> world" where
  "perform_all invoke pick [] w = w"
| "perform_all invoke pick (c # cs) w = perform_all invoke pick cs (perform invoke pick c w)"

text \<open>The buses a program can have: the new bus, and every bus after a call on such a bus.\<close>

inductive reachable :: "EventBus \<Rightarrow> bool" where
  reachable_New: "reachable New"
| reachable_perform:
    "reachable (the_bus w) \<Longrightarrow> reachable (the_bus (perform invoke pick c w))"

section \<open>Notions the properties are stated with\<close>

text \<open>
  The match that the specification asks of \<^verbatim>\<open>Unsubscribe\<close>, in its own words: the
  handler's declared type equals the type of the reference and its entry point equals the
  entry point of the reference. The nil interface has neither and matches nothing; the
  closure environment plays no part.
\<close>

definition same_function :: "val \<Rightarrow> eventHandler \<Rightarrow> bool" where
  "same_function r h =
     (case (ValueOf r, callBack h) of
        (RV rt rd, RV ht hdat) \<Rightarrow> ht = rt \<and> data_pointer hdat = data_pointer rd
      | _ \<Rightarrow> False)"

text \<open>Every registered callback is a valid \<^verbatim>\<open>reflect.Value\<close> of kind Func.\<close>

definition handlers_are_funcs :: "EventBus \<Rightarrow> bool" where
  "handlers_are_funcs bus =
     (\<forall>topic hs. handlers bus topic = Some hs \<longrightarrow>
        (\<forall>h \<in> set hs. \<exists>t d. callBack h = RV t d \<and> Kind t = KFunc))"

subsection \<open>A small client\<close>

text \<open>
  Three functions of a client and what they do when called: \<open>greet\<close> is
  \<^verbatim>\<open>func(name string) string\<close> and returns \<^verbatim>\<open>"hello " + name\<close> after 5 ticks;
  \<open>boom\<close> is \<^verbatim>\<open>func()\<close> and panics; \<open>counter env\<close> is a closure
  \<^verbatim>\<open>func(n int)\<close> made from one function literal (code pointer 7) over the environment
  \<open>env\<close>, and \<open>ticker env\<close> is that closure converted to the defined type
  \<^verbatim>\<open>type Ticker func(n int)\<close>.
\<close>

definition greet :: val where
  "greet = Val (TFunc [TString] False [TString]) (DFunc 1 0)"

definition boom :: val where
  "boom = Val (TFunc [] False []) (DFunc 2 0)"

definition counter :: "nat \<Rightarrow> val" where
  "counter env = Val (TFunc [TInt] False []) (DFunc 7 env)"

definition ticker :: "nat \<Rightarrow> val" where
  "ticker env = Val (TNamed ''main.Ticker'' (TFunc [TInt] False [])) (DFunc 7 env)"

definition example_invoke :: invoker where
  "example_invoke p env ins =
     (if p = 1 then
        (case ins of
           [RV TString (DStr name)] \<Rightarrow> Completes 5 [RV TString (DStr (''hello '' @ name))]
         | _ \<Rightarrow> Panics (HandlerPanic ''reflect: Call with wrong arguments''))
      else if p = 2 then Panics (HandlerPanic ''boom'')
      else if p = 3 then Hangs
      else Completes 1 [])"

definition greet_bus :: EventBus where
  "greet_bus = snd (Subscribe New ''greet'' greet)"

definition tick_bus :: EventBus where
  "tick_bus =
     snd (Subscribe (snd (Subscribe greet_bus ''tick'' (counter 1))) ''tick'' (counter 2))"

section \<open>Subscribing keeps the callbacks functions\<close>

lemma Subscribe_typed:
  "Subscribe bus topic (Val t d) =
     (if Kind t = KFunc
      then (Inr None,
            bus\<lparr>handlers :=
              (handlers bus)(topic \<mapsto> topic_handlers bus topic @ [\<lparr>callBack = RV t d\<rparr>])\<rparr>)
      else (Inr (Some (NotInvocable (Kind t))), bus))"
  by (simp add: Subscribe_def doSubscribe_def)

lemma Subscribe_Nil: "Subscribe bus topic Nil = (Inl NilPointerDereference, bus)"
  by (simp add: Subscribe_def doSubscribe_def)

lemma greet_bus_handlers:
  "handlers greet_bus =
     [''greet'' \<mapsto> [\<lparr>callBack = RV (TFunc [TString] False [TString]) (DFunc 1 0)\<rparr>]]"
  by (simp add: greet_bus_def greet_def Subscribe_typed New_def topic_handlers_def)

lemma Subscribe_funcs:
  assumes "handlers_are_funcs bus"
  shows "handlers_are_funcs (snd (Subscribe bus topic fn))"
proof (cases fn)
  case Nil
  with assms show ?thesis by (simp add: Subscribe_Nil)
next
  case (Val t d)
  show ?thesis
  proof (cases "Kind t = KFunc")
    case False
    with Val assms show ?thesis by (simp add: Subscribe_typed)
  next
    case True
    have old: "\<forall>h \<in> set (topic_handlers bus topic). \<exists>t d. callBack h = RV t d \<and> Kind t = KFunc"
      using assms by (cases "handlers bus topic") (auto simp: topic_handlers_def handlers_are_funcs_def)
    show ?thesis
      unfolding handlers_are_funcs_def
    proof (intro allI impI)
      fix topic' hs
      assume "handlers (snd (Subscribe bus topic fn)) topic' = Some hs"
      with Val True have hs: "(if topic' = topic
          then Some (topic_handlers bus topic @ [\<lparr>callBack = RV t d\<rparr>])
          else handlers bus topic') = Some hs"
        by (simp add: Subscribe_typed)
      show "\<forall>h \<in> set hs. \<exists>t d. callBack h = RV t d \<and> Kind t = KFunc"
      proof (cases "topic' = topic")
        case True
        with hs have "hs = topic_handlers bus topic @ [\<lparr>callBack = RV t d\<rparr>]" by simp
        with old \<open>Kind t = KFunc\<close> show ?thesis by auto
      next
        case False
        with hs have "handlers bus topic' = Some hs" by simp
        with assms show ?thesis by (simp add: handlers_are_funcs_def)
      qed
    qed
  qed
qed

lemma removeHandler_funcs:
  "handlers_are_funcs bus \<Longrightarrow> handlers_are_funcs (removeHandler bus topic idx)"
  unfolding handlers_are_funcs_def removeHandler_def Let_def
  by (auto split: option.splits dest: in_set_takeD in_set_dropD)

lemma Unsubscribe_funcs:
  "handlers_are_funcs bus \<Longrightarrow> handlers_are_funcs (snd (Unsubscribe bus topic r))"
  by (auto simp: Unsubscribe_def removeHandler_funcs split: option.splits sum.splits)

lemma perform_funcs:
  "handlers_are_funcs (the_bus w) \<Longrightarrow> handlers_are_funcs (the_bus (perform invoke pick c w))"
  by (cases c) (simp_all add: Subscribe_funcs Unsubscribe_funcs)

lemma reachable_funcs: "reachable bus \<Longrightarrow> handlers_are_funcs bus"
proof (induction rule: reachable.induct)
  case reachable_New
  show ?case by (simp add: handlers_are_funcs_def New_def)
next
  case (reachable_perform w invoke pick c)
  from reachable_perform.IH show ?case by (rule perform_funcs)
qed

lemma reachable_Subscribe: "reachable bus \<Longrightarrow> reachable (snd (Subscribe bus topic fn))"
  using reachable_perform [of "\<lparr>the_bus = bus, goroutines = []\<rparr>" undefined undefined
      "SubscribeCall topic fn"]
  by simp

lemma reachable_Unsubscribe: "reachable bus \<Longrightarrow> reachable (snd (Unsubscribe bus topic r))"
  using reachable_perform [of "\<lparr>the_bus = bus, goroutines = []\<rparr>" undefined undefined
      "UnsubscribeCall topic r"]
  by simp

lemma reachable_greet_bus: "reachable greet_bus"
  unfolding greet_bus_def by (rule reachable_Subscribe) (rule reachable_New)

lemma tick_bus_handlers:
  "handlers tick_bus =
     [''greet'' \<mapsto> [\<lparr>callBack = RV (TFunc [TString] False [TString]) (DFunc 1 0)\<rparr>],
      ''tick'' \<mapsto> [\<lparr>callBack = RV (TFunc [TInt] False []) (DFunc 7 1)\<rparr>,
                  \<lparr>callBack = RV (TFunc [TInt] False []) (DFunc 7 2)\<rparr>]]"
  by (simp add: tick_bus_def counter_def Subscribe_typed greet_bus_handlers topic_handlers_def)

lemma reachable_tick_bus: "reachable tick_bus"
  unfolding tick_bus_def by (intro reachable_Subscribe reachable_greet_bus)

section \<open>The reply dispatcher\<close>

text \<open>
  C1. \<^verbatim>\<open>PublishWithReply\<close> on a topic without an entry in the handler map returns the
  unknown-topic error; on a topic whose entry has a number of handlers other than 1 (0
  included) it returns the handler-count error with the topic and that number. In both
  cases it starts no goroutine, so that no handler is called, and it returns without
  waiting, whatever the timeout, the arguments and the handlers are.
\<close>

theorem PublishWithReply_rejects:
  "(handlers bus topic = None \<longrightarrow>
      PublishWithReply invoke pick bus topic timeout args =
        \<lparr>reply_value = None, reply_err = Some (UnknownTopic topic), launched = [], waited = 0\<rparr>)
   \<and> (\<forall>hs. handlers bus topic = Some hs \<and> length hs \<noteq> 1 \<longrightarrow>
      PublishWithReply invoke pick bus topic timeout args =
        \<lparr>reply_value = None, reply_err = Some (HandlerCountMismatch topic (length hs)),
         launched = [], waited = 0\<rparr>)"
  by (simp add: PublishWithReply_def)

theorem PublishWithReply_rejects_witness:
  "PublishWithReply example_invoke True New ''greet'' 100 [] =
     \<lparr>reply_value = None, reply_err = Some (UnknownTopic ''greet''), launched = [], waited = 0\<rparr>
   \<and> PublishWithReply example_invoke True (snd (Subscribe greet_bus ''greet'' boom))
       ''greet'' 100 [] =
     \<lparr>reply_value = None, reply_err = Some (HandlerCountMismatch ''greet'' 2),
      launched = [], waited = 0\<rparr>
   \<and> PublishWithReply example_invoke True (snd (Unsubscribe greet_bus ''greet'' greet))
       ''greet'' 100 [] =
     \<lparr>reply_value = None, reply_err = Some (HandlerCountMismatch ''greet'' 0),
      launched = [], waited = 0\<rparr>"
proof -
  have absent: "handlers New ''greet'' = None" by (simp add: New_def)
  have two: "handlers (snd (Subscribe greet_bus ''greet'' boom)) ''greet'' =
      Some [\<lparr>callBack = RV (TFunc [TString] False [TString]) (DFunc 1 0)\<rparr>,
            \<lparr>callBack = RV (TFunc [] False []) (DFunc 2 0)\<rparr>]"
    by (simp add: boom_def Subscribe_typed greet_bus_handlers topic_handlers_def)
  have none: "handlers (snd (Unsubscribe greet_bus ''greet'' greet)) ''greet'' = Some []"
    by (simp add: Unsubscribe_def greet_bus_handlers findHandlerIdx_def greet_def
        removeHandler_def)
  from PublishWithReply_rejects [of New "''greet''" example_invoke True 100 "[]"] absent
    PublishWithReply_rejects [of "snd (Subscribe greet_bus ''greet'' boom)" "''greet''"
      example_invoke True 100 "[]"] two
    PublishWithReply_rejects [of "snd (Unsubscribe greet_bus ''greet'' greet)" "''greet''"
      example_invoke True 100 "[]"] none
  show ?thesis by simp
qed

text \<open>
  When the handler's invocation completes before the timer fires, the \<^verbatim>\<open>select\<close> takes
  the result list from the channel: \<^verbatim>\<open>PublishWithReply\<close> returns the only element of a
  list of exactly one element, and nil for a list of none or several, with no error.
\<close>

lemma PublishWithReply_completes:
  assumes "handlers bus topic = Some [h]"
    and "setUpPublish h args = Inr passed"
    and "Call invoke (callBack h) passed = Completes d resultList"
    and "d < nat timeout"
  shows "PublishWithReply invoke pick bus topic timeout args =
     \<lparr>reply_value = (if length resultList = 1 then Some (resultList ! 0) else None),
      reply_err = None, launched = [ReplyTask h args], waited = d\<rparr>"
  using assms by (simp add: PublishWithReply_def replyTask_def replyBody_def)

lemma PublishWithReply_greet:
  "PublishWithReply example_invoke False greet_bus ''greet'' 100 [Val TString (DStr ''world'')] =
     \<lparr>reply_value = Some (RV TString (DStr ''hello world'')), reply_err = None,
      launched = [ReplyTask \<lparr>callBack = RV (TFunc [TString] False [TString]) (DFunc 1 0)\<rparr>
                    [Val TString (DStr ''world'')]],
      waited = 5\<rparr>"
proof -
  have a: "handlers greet_bus ''greet'' =
      Some [\<lparr>callBack = RV (TFunc [TString] False [TString]) (DFunc 1 0)\<rparr>]"
    by (simp add: greet_bus_handlers)
  have b: "setUpPublish \<lparr>callBack = RV (TFunc [TString] False [TString]) (DFunc 1 0)\<rparr>
      [Val TString (DStr ''world'')] = Inr [RV TString (DStr ''world'')]"
    by (simp add: setUpPublish_def)
  have c: "Call example_invoke
      (callBack \<lparr>callBack = RV (TFunc [TString] False [TString]) (DFunc 1 0)\<rparr>)
      [RV TString (DStr ''world'')] = Completes 5 [RV TString (DStr ''hello world'')]"
    by (simp add: example_invoke_def)
  have d: "(5::nat) < nat 100" by simp
  from PublishWithReply_completes [OF a b c d, of False] show ?thesis by simp
qed

text \<open>
  C2 says that \<^verbatim>\<open>PublishWithReply\<close> on a topic whose one handler completes in time with
  a single result returns that result: the string \<^verbatim>\<open>"hello world"\<close> for the handler
  \<open>greet\<close> called with \<^verbatim>\<open>"world"\<close>. The code returns no error, but what the returned
  \<^verbatim>\<open>interface{}\<close> holds is the \<^verbatim>\<open>reflect.Value\<close> that \<^verbatim>\<open>Value.Call\<close> gave, not the
  string: \<^verbatim>\<open>resultList[0]\<close> is returned without \<^verbatim>\<open>.Interface()\<close>.
\<close>

theorem PublishWithReply_returns_reflect_Value:
  "returned (PublishWithReply example_invoke False greet_bus ''greet'' 100
       [Val TString (DStr ''world'')]) =
     HoldsReflectValue (RV TString (DStr ''hello world''))
   \<and> returned (PublishWithReply example_invoke False greet_bus ''greet'' 100
       [Val TString (DStr ''world'')]) \<noteq>
     HoldsValue TString (DStr ''hello world'')
   \<and> reply_err (PublishWithReply example_invoke False greet_bus ''greet'' 100
       [Val TString (DStr ''world'')]) = None"
  by (simp add: PublishWithReply_greet returned_def)

section \<open>Unsubscribing\<close>

lemma findHandlerLoop_Invalid:
  "hs \<noteq> [] \<Longrightarrow> \<forall>h \<in> set hs. \<exists>t d. callBack h = RV t d \<and> Kind t = KFunc \<Longrightarrow>
   findHandlerLoop hs i Invalid = Inl TypeOnZeroValue"
  by (cases hs) auto

lemma findHandlerLoop_typed:
  "\<forall>h \<in> set hs. \<exists>t d. callBack h = RV t d \<and> Kind t = KFunc \<Longrightarrow>
   findHandlerLoop hs i (RV rt rd) =
     (if \<exists>h \<in> set hs. same_function (Val rt rd) h
      then Inr (int (i + length (takeWhile (\<lambda>h. \<not> same_function (Val rt rd) h) hs)))
      else Inr (- 1))"
proof (induction hs arbitrary: i)
  case Nil
  show ?case by simp
next
  case (Cons h hs)
  from Cons.prems obtain t d where h: "callBack h = RV t d" "Kind t = KFunc" by auto
  from Cons.prems have rest: "\<forall>h \<in> set hs. \<exists>t d. callBack h = RV t d \<and> Kind t = KFunc"
    by simp
  show ?case
  proof (cases "same_function (Val rt rd) h")
    case True
    with h show ?thesis by (auto simp: same_function_def)
  next
    case False
    with h have "findHandlerLoop (h # hs) i (RV rt rd)
        = findHandlerLoop hs (Suc i) (RV rt rd)"
      by (auto simp: same_function_def)
    with False Cons.IH [OF rest, of "Suc i"] show ?thesis by simp
  qed
qed

lemma remove_at_first:
  "take (length (takeWhile P xs)) xs @ drop (Suc (length (takeWhile P xs))) xs =
   takeWhile P xs @ drop (Suc 0) (dropWhile P xs)"
proof -
  have "drop (Suc (length (takeWhile P xs))) xs = drop (Suc 0) (drop (length (takeWhile P xs)) xs)"
    by simp
  also have "drop (length (takeWhile P xs)) xs = dropWhile P xs"
    by (simp add: dropWhile_eq_drop)
  finally show ?thesis by (simp add: takeWhile_eq_take [symmetric])
qed

lemma remove_none:
  "\<forall>x \<in> set xs. P x \<Longrightarrow> takeWhile P xs @ drop (Suc 0) (dropWhile P xs) = xs"
  by (induction xs) auto

lemma takeWhile_length_less:
  "\<exists>x \<in> set xs. \<not> P x \<Longrightarrow> length (takeWhile P xs) < length xs"
  by (induction xs) auto

lemma Unsubscribe_typed:
  assumes funcs: "handlers_are_funcs bus"
    and hs: "handlers bus topic = Some hs" "hs \<noteq> []"
  shows "Unsubscribe bus topic (Val rt rd) =
     (Inr None,
      bus\<lparr>handlers := (handlers bus)(topic \<mapsto>
        takeWhile (\<lambda>h. \<not> same_function (Val rt rd) h) hs
        @ drop 1 (dropWhile (\<lambda>h. \<not> same_function (Val rt rd) h) hs))\<rparr>)"
proof -
  let ?P = "\<lambda>h. \<not> same_function (Val rt rd) h"
  from funcs hs have all: "\<forall>h \<in> set hs. \<exists>t d. callBack h = RV t d \<and> Kind t = KFunc"
    by (simp add: handlers_are_funcs_def)
  show ?thesis
  proof (cases "\<exists>h \<in> set hs. same_function (Val rt rd) h")
    case True
    then have less: "length (takeWhile ?P hs) < length hs"
      by (intro takeWhile_length_less) simp
    from True have "findHandlerIdx bus topic (RV rt rd) = Inr (int (length (takeWhile ?P hs)))"
      using findHandlerLoop_typed [OF all, of 0 rt rd] hs by (simp add: findHandlerIdx_def)
    with hs less show ?thesis
      by (simp add: Unsubscribe_def removeHandler_def Let_def remove_at_first)
  next
    case False
    then have idx: "findHandlerIdx bus topic (RV rt rd) = Inr (- 1)"
      using findHandlerLoop_typed [OF all, of 0 rt rd] hs by (simp add: findHandlerIdx_def)
    from False have same: "takeWhile ?P hs @ drop (Suc 0) (dropWhile ?P hs) = hs"
      by (intro remove_none) simp
    have "bus\<lparr>handlers := (handlers bus)(topic \<mapsto> hs)\<rparr> = bus"
      using hs by (simp add: map_upd_triv)
    then show ?thesis using hs idx
      by (simp add: Unsubscribe_def removeHandler_def Let_def same)
  qed
qed

lemma Unsubscribe_zero_Value:
  assumes funcs: "handlers_are_funcs bus"
    and hs: "handlers bus topic = Some hs" "hs \<noteq> []"
  shows "Unsubscribe bus topic Nil = (Inl TypeOnZeroValue, bus)"
proof -
  from funcs hs have all: "\<forall>h \<in> set hs. \<exists>t d. callBack h = RV t d \<and> Kind t = KFunc"
    by (simp add: handlers_are_funcs_def)
  from findHandlerLoop_Invalid [OF hs(2) all, of 0] hs show ?thesis
    by (simp add: Unsubscribe_def findHandlerIdx_def)
qed

lemma Unsubscribe_no_handlers:
  "handlers bus topic = None \<or> handlers bus topic = Some [] \<Longrightarrow>
   Unsubscribe bus topic r = (Inr (Some (UnknownTopic topic)), bus)"
  by (auto simp: Unsubscribe_def)

text \<open>
  C6. On a topic with a non-empty handler sequence, \<^verbatim>\<open>Unsubscribe\<close> leaves the bus
  with exactly the first handler in registration order removed whose type is identical
  to the type of the reference and whose entry point equals the entry point of the
  reference (the closure environment is not compared; a reference of a defined type does
  not match a handler of its underlying type): the handlers before it and after it keep
  their order, no second handler is removed, nothing is removed when none matches, and
  the sequences of the other topics are the same.
\<close>

theorem Unsubscribe_removes_first_match:
  assumes "reachable bus" and "handlers bus topic = Some hs" and "hs \<noteq> []"
  shows "snd (Unsubscribe bus topic r) =
     bus\<lparr>handlers := (handlers bus)(topic \<mapsto>
       takeWhile (\<lambda>h. \<not> same_function r h) hs
       @ drop 1 (dropWhile (\<lambda>h. \<not> same_function r h) hs))\<rparr>"
proof (cases r)
  case Nil
  have "bus\<lparr>handlers := (handlers bus)(topic \<mapsto> hs)\<rparr> = bus"
    using assms(2) by (simp add: map_upd_triv)
  moreover have "takeWhile (\<lambda>h. True) hs @ drop (Suc 0) (dropWhile (\<lambda>h. True) hs) = hs"
    by (intro remove_none) simp
  ultimately show ?thesis
    using Nil Unsubscribe_zero_Value [OF reachable_funcs [OF assms(1)] assms(2,3)]
    by (simp add: same_function_def)
next
  case (Val rt rd)
  with Unsubscribe_typed [OF reachable_funcs [OF assms(1)] assms(2,3)] show ?thesis by simp
qed

theorem Unsubscribe_removes_first_match_witness:
  "snd (Unsubscribe tick_bus ''tick'' (counter 3)) =
     tick_bus\<lparr>handlers :=
       [''greet'' \<mapsto> [\<lparr>callBack = RV (TFunc [TString] False [TString]) (DFunc 1 0)\<rparr>],
        ''tick'' \<mapsto> [\<lparr>callBack = RV (TFunc [TInt] False []) (DFunc 7 2)\<rparr>]]\<rparr>
   \<and> handlers (snd (Unsubscribe tick_bus ''tick'' (ticker 1))) = handlers tick_bus"
proof -
  have hs: "handlers tick_bus ''tick'' =
      Some [\<lparr>callBack = RV (TFunc [TInt] False []) (DFunc 7 1)\<rparr>,
            \<lparr>callBack = RV (TFunc [TInt] False []) (DFunc 7 2)\<rparr>]"
    by (simp add: tick_bus_handlers)
  have ne: "[\<lparr>callBack = RV (TFunc [TInt] False []) (DFunc 7 1)\<rparr>,
            \<lparr>callBack = RV (TFunc [TInt] False []) (DFunc 7 2)\<rparr>] \<noteq> []"
    by simp
  from Unsubscribe_removes_first_match [OF reachable_tick_bus hs ne, of "counter 3"]
  have closure: "snd (Unsubscribe tick_bus ''tick'' (counter 3)) =
     tick_bus\<lparr>handlers :=
       [''greet'' \<mapsto> [\<lparr>callBack = RV (TFunc [TString] False [TString]) (DFunc 1 0)\<rparr>],
        ''tick'' \<mapsto> [\<lparr>callBack = RV (TFunc [TInt] False []) (DFunc 7 2)\<rparr>]]\<rparr>"
    by (simp add: same_function_def counter_def tick_bus_handlers)
  from Unsubscribe_removes_first_match [OF reachable_tick_bus hs ne, of "ticker 1"]
  have defined: "handlers (snd (Unsubscribe tick_bus ''tick'' (ticker 1))) = handlers tick_bus"
    by (simp add: same_function_def ticker_def tick_bus_handlers)
  from closure defined show ?thesis by simp
qed

text \<open>
  C5 says that \<^verbatim>\<open>Unsubscribe\<close> returns success whenever the topic has a handler, for
  every reference, and leaves the registry as it is when no handler matches. For the nil
  interface, which matches no handler, it does not return: \<^verbatim>\<open>reflect.ValueOf(nil)\<close> is the
  zero Value, and \<^verbatim>\<open>findHandlerIdx\<close> calls \<^verbatim>\<open>Type()\<close> on it at the first handler, which
  panics.
\<close>

theorem Unsubscribe_nil_panics:
  "handlers greet_bus ''greet'' =
     Some [\<lparr>callBack = RV (TFunc [TString] False [TString]) (DFunc 1 0)\<rparr>]
   \<and> Unsubscribe greet_bus ''greet'' Nil = (Inl TypeOnZeroValue, greet_bus)"
  by (simp add: greet_bus_handlers Unsubscribe_def findHandlerIdx_def)

text \<open>
  What \<^verbatim>\<open>Unsubscribe\<close> returns on a reachable bus, for every reference: the
  unknown-topic error exactly when the topic has no entry or an empty sequence (also for
  the nil interface); otherwise the panic for the nil interface and success for every
  other reference. When no handler of the topic matches, the bus is left as it was.
\<close>

lemma Unsubscribe_result:
  assumes "reachable bus"
  shows "fst (Unsubscribe bus topic r) =
       (if handlers bus topic = None \<or> handlers bus topic = Some []
        then Inr (Some (UnknownTopic topic))
        else if r = Nil then Inl TypeOnZeroValue else Inr None)
     \<and> ((\<forall>h \<in> set (topic_handlers bus topic). \<not> same_function r h) \<longrightarrow>
          snd (Unsubscribe bus topic r) = bus)"
proof (cases "handlers bus topic = None \<or> handlers bus topic = Some []")
  case True
  then show ?thesis by (simp add: Unsubscribe_no_handlers)
next
  case False
  then obtain hs where hs: "handlers bus topic = Some hs" "hs \<noteq> []" by auto
  show ?thesis
  proof (cases r)
    case Nil
    with Unsubscribe_zero_Value [OF reachable_funcs [OF assms] hs] False show ?thesis
      by simp
  next
    case r: (Val rt rd)
    show ?thesis
    proof (intro conjI impI)
      from Unsubscribe_typed [OF reachable_funcs [OF assms] hs, of rt rd] r False
      show "fst (Unsubscribe bus topic r) =
          (if handlers bus topic = None \<or> handlers bus topic = Some []
           then Inr (Some (UnknownTopic topic))
           else if r = Nil then Inl TypeOnZeroValue else Inr None)"
        by simp
    next
      assume "\<forall>h \<in> set (topic_handlers bus topic). \<not> same_function r h"
      with hs have "\<forall>h \<in> set hs. \<not> same_function r h" by (simp add: topic_handlers_def)
      then have same: "takeWhile (\<lambda>h. \<not> same_function r h) hs
          @ drop (Suc 0) (dropWhile (\<lambda>h. \<not> same_function r h) hs) = hs"
        by (rule remove_none)
      have upd: "bus\<lparr>handlers := (handlers bus)(topic \<mapsto> hs)\<rparr> = bus"
        using hs by (simp add: map_upd_triv)
      from Unsubscribe_typed [OF reachable_funcs [OF assms] hs, of rt rd] r
      show "snd (Unsubscribe bus topic r) = bus"
        by (simp add: same [unfolded r] upd)
    qed
  qed
qed

section \<open>The handler map\<close>

lemma Subscribe_dom: "dom (handlers bus) \<subseteq> dom (handlers (snd (Subscribe bus t fn)))"
  by (cases fn) (auto simp: Subscribe_Nil Subscribe_typed)

lemma removeHandler_dom: "dom (handlers (removeHandler bus t idx)) = dom (handlers bus)"
  by (auto simp: removeHandler_def Let_def split: option.splits)

lemma Unsubscribe_dom: "dom (handlers (snd (Unsubscribe bus t r))) = dom (handlers bus)"
  by (simp add: Unsubscribe_def removeHandler_dom split: option.splits sum.splits)

lemma perform_dom:
  "dom (handlers (the_bus w)) \<subseteq> dom (handlers (the_bus (perform invoke pick c w)))"
  by (cases c) (simp_all add: Subscribe_dom Unsubscribe_dom)

lemma perform_all_dom:
  "dom (handlers (the_bus w)) \<subseteq> dom (handlers (the_bus (perform_all invoke pick cs w)))"
proof (induction cs arbitrary: w)
  case Nil
  show ?case by simp
next
  case (Cons c cs)
  from perform_dom [of w invoke pick c] Cons.IH [of "perform invoke pick c w"]
  have "dom (handlers (the_bus w))
      \<subseteq> dom (handlers (the_bus (perform_all invoke pick cs (perform invoke pick c w))))"
    by (rule order_trans)
  then show ?case by simp
qed

text \<open>
  C3. A topic that has an entry in the handler map still has one after any sequence of
  calls of \<^verbatim>\<open>Subscribe\<close>, \<^verbatim>\<open>Unsubscribe\<close>, \<^verbatim>\<open>HasCallback\<close>, \<^verbatim>\<open>Publish\<close> and
  \<^verbatim>\<open>PublishWithReply\<close>, also when its handler sequence has become empty; and
  \<^verbatim>\<open>HasCallback\<close> is true if and only if the topic has an entry and the sequence of
  the entry is not empty.
\<close>

theorem topic_keys_stay:
  "(handlers (the_bus w) topic \<noteq> None \<longrightarrow>
      handlers (the_bus (perform_all invoke pick cs w)) topic \<noteq> None)
   \<and> (HasCallback bus topic \<longleftrightarrow> (\<exists>hs. handlers bus topic = Some hs \<and> hs \<noteq> []))"
proof
  from perform_all_dom [of w invoke pick cs]
  show "handlers (the_bus w) topic \<noteq> None \<longrightarrow>
      handlers (the_bus (perform_all invoke pick cs w)) topic \<noteq> None"
    by (metis domIff subsetD)
next
  show "HasCallback bus topic \<longleftrightarrow> (\<exists>hs. handlers bus topic = Some hs \<and> hs \<noteq> [])"
    by (simp add: HasCallback_def split: option.splits)
qed

theorem topic_keys_stay_witness:
  "handlers (the_bus (perform_all example_invoke True
       [UnsubscribeCall ''greet'' greet, HasCallbackCall ''greet'', PublishCall ''greet'' [],
        PublishWithReplyCall ''greet'' 100 []]
       \<lparr>the_bus = greet_bus, goroutines = []\<rparr>)) ''greet'' = Some []
   \<and> \<not> HasCallback (snd (Unsubscribe greet_bus ''greet'' greet)) ''greet''
   \<and> HasCallback greet_bus ''greet''"
proof -
  have un: "snd (Unsubscribe greet_bus ''greet'' greet) = greet_bus\<lparr>handlers := [''greet'' \<mapsto> []]\<rparr>"
    by (simp add: Unsubscribe_def greet_bus_handlers findHandlerIdx_def greet_def
        removeHandler_def)
  have present: "handlers (the_bus \<lparr>the_bus = greet_bus, goroutines = []\<rparr>) ''greet'' \<noteq> None"
    by (simp add: greet_bus_handlers)
  from topic_keys_stay [of "\<lparr>the_bus = greet_bus, goroutines = []\<rparr>" "''greet''"
      example_invoke True
      "[UnsubscribeCall ''greet'' greet, HasCallbackCall ''greet'', PublishCall ''greet'' [],
        PublishWithReplyCall ''greet'' 100 []]"
      "snd (Unsubscribe greet_bus ''greet'' greet)"]
    topic_keys_stay [of "\<lparr>the_bus = greet_bus, goroutines = []\<rparr>" "''greet''"
      example_invoke True "[]" greet_bus]
    present
  show ?thesis
    by (simp add: un greet_bus_handlers)
qed

section \<open>Subscribing\<close>

text \<open>
  C4 says that \<^verbatim>\<open>Subscribe\<close> returns the not-a-function error for every \<open>fn\<close> that
  is no function. For the nil interface it does not: \<^verbatim>\<open>reflect.TypeOf(nil)\<close> is the nil
  Type, and calling \<^verbatim>\<open>Kind()\<close> on it panics with a nil pointer dereference.
\<close>

theorem Subscribe_nil_panics:
  "Subscribe New ''greet'' Nil = (Inl NilPointerDereference, New)"
  by (simp add: Subscribe_def doSubscribe_def)

text \<open>
  For every \<open>fn\<close> other than the nil interface \<^verbatim>\<open>Subscribe\<close> does what C4 says: the
  error for a value that is no function, with the bus unchanged, and otherwise success
  with one new handler at the end of the topic's sequence.
\<close>

lemma Subscribe_non_nil:
  "fn \<noteq> Nil \<Longrightarrow>
   (\<exists>k. fst (Subscribe bus topic fn) = Inr (Some (NotInvocable k))) = (\<forall>t. TypeOf fn = Some t \<longrightarrow> Kind t \<noteq> KFunc)
   \<and> ((\<exists>t. TypeOf fn = Some t \<and> Kind t \<noteq> KFunc) \<longrightarrow> snd (Subscribe bus topic fn) = bus)
   \<and> ((\<exists>t. TypeOf fn = Some t \<and> Kind t = KFunc) \<longrightarrow>
        fst (Subscribe bus topic fn) = Inr None
        \<and> snd (Subscribe bus topic fn) =
            bus\<lparr>handlers := (handlers bus)(topic \<mapsto>
              topic_handlers bus topic @ [\<lparr>callBack = ValueOf fn\<rparr>])\<rparr>)"
  by (cases fn) (auto simp: Subscribe_typed)

section \<open>Preparing the arguments\<close>

lemma In_defined: "(\<exists>t. In ft j = Inr t) = (j < NumIn ft)"
  by (induction ft) auto

lemma setUpLoop_returns:
  "(\<exists>passed. setUpLoop ft i args = Inr passed) =
   (\<forall>k < length args. args ! k = Nil \<longrightarrow> i + k < NumIn ft)"
proof (induction args arbitrary: i)
  case Nil
  show ?case by simp
next
  case (Cons v rest)
  have split: "(\<forall>k < length (v # rest). (v # rest) ! k = Nil \<longrightarrow> i + k < NumIn ft) =
      ((v = Nil \<longrightarrow> i < NumIn ft) \<and> (\<forall>k < length rest. rest ! k = Nil \<longrightarrow> Suc i + k < NumIn ft))"
    by (auto simp: nth_Cons less_Suc_eq_0_disj split: nat.splits)
  show ?case
  proof (cases v)
    case Nil
    show ?thesis
    proof (cases "i < NumIn ft")
      case True
      then obtain t where "In ft i = Inr t" using In_defined [of ft i] by auto
      with Nil True Cons.IH [of "Suc i"] show ?thesis
        unfolding split by (auto split: sum.splits)
    next
      case False
      then have "\<exists>f. In ft i = Inl f" using In_defined [of ft i] by (cases "In ft i") auto
      with Nil False show ?thesis unfolding split by auto
    qed
  next
    case (Val t d)
    with Cons.IH [of "Suc i"] show ?thesis
      unfolding split by (auto split: sum.splits)
  qed
qed

lemma setUpLoop_values:
  "setUpLoop ft i args = Inr passed \<Longrightarrow>
   length passed = length args
   \<and> (\<forall>k < length args.
        case args ! k of
          Nil \<Rightarrow> (\<exists>t. In ft (i + k) = Inr t \<and> passed ! k = Zero t)
        | Val t d \<Rightarrow> passed ! k = RV t d)"
proof (induction args arbitrary: i passed)
  case Nil
  then show ?case by simp
next
  case (Cons v rest)
  from Cons.prems obtain x xs where
    x: "(case v of Nil \<Rightarrow> (case In ft i of Inl f \<Rightarrow> Inl f | Inr t \<Rightarrow> Inr (Zero t))
          | Val t d \<Rightarrow> Inr (ValueOf v)) = Inr x"
    and xs: "setUpLoop ft (Suc i) rest = Inr xs"
    and passed: "passed = x # xs"
    by (auto split: sum.splits)
  from x have x': "case v of Nil \<Rightarrow> (\<exists>t. In ft i = Inr t \<and> x = Zero t) | Val t d \<Rightarrow> x = RV t d"
    by (cases v) (auto split: sum.splits)
  from Cons.IH [OF xs] have len: "length xs = length rest"
    and rest: "\<forall>k < length rest.
        case rest ! k of
          Nil \<Rightarrow> (\<exists>t. In ft (Suc i + k) = Inr t \<and> xs ! k = Zero t)
        | Val t d \<Rightarrow> xs ! k = RV t d"
    by simp_all
  show ?case
  proof (intro conjI allI impI)
    from len passed show "length passed = length (v # rest)" by simp
  next
    fix k assume k: "k < length (v # rest)"
    show "case (v # rest) ! k of
          Nil \<Rightarrow> (\<exists>t. In ft (i + k) = Inr t \<and> passed ! k = Zero t)
        | Val t d \<Rightarrow> passed ! k = RV t d"
    proof (cases k)
      case 0
      with x' passed show ?thesis by (simp cong: val.case_cong)
    next
      case (Suc m)
      with k have "m < length rest" by simp
      with rest have "case rest ! m of
          Nil \<Rightarrow> (\<exists>t. In ft (Suc i + m) = Inr t \<and> xs ! m = Zero t)
        | Val t d \<Rightarrow> xs ! m = RV t d" by simp
      with Suc passed show ?thesis by (simp cong: val.case_cong)
    qed
  qed
qed

text \<open>
  C8. In every handler invocation made for \<^verbatim>\<open>Publish\<close> (by \<^verbatim>\<open>doPublish\<close>) or for
  \<^verbatim>\<open>PublishWithReply\<close> (by its goroutine), the handler is called with one value for each
  supplied argument, in the order of the arguments: at position \<open>i\<close> the zero value of the
  declared type of parameter \<open>i\<close> (\<^verbatim>\<open>Type.In(i)\<close> of the callback's type) when the
  argument is nil, and the argument itself otherwise.
\<close>

theorem setUpPublish_positional:
  assumes "Type (callBack h) = Inr ft"
    and "setUpPublish h args = Inr passed"
  shows "length passed = length args
     \<and> (\<forall>i < length args.
          case args ! i of
            Nil \<Rightarrow> (\<exists>t. In ft i = Inr t \<and> passed ! i = Zero t)
          | Val t d \<Rightarrow> passed ! i = RV t d)
     \<and> (\<forall>i < length args. args ! i = Nil \<longrightarrow> i < NumIn ft)
     \<and> calls (doPublish invoke h topic args) = [(callBack h, passed)]
     \<and> replyBody invoke h args =
         \<lparr>calls = [(callBack h, passed)], ending = Call invoke (callBack h) passed\<rparr>"
proof -
  from assms have loop: "setUpLoop ft 0 args = Inr passed"
    by (simp add: setUpPublish_def)
  from setUpLoop_values [OF loop] have
    "length passed = length args"
    "\<forall>i < length args.
          case args ! i of
            Nil \<Rightarrow> (\<exists>t. In ft i = Inr t \<and> passed ! i = Zero t)
          | Val t d \<Rightarrow> passed ! i = RV t d"
    by (simp_all cong: val.case_cong)
  moreover from loop setUpLoop_returns [of ft 0 args]
  have "\<forall>i < length args. args ! i = Nil \<longrightarrow> i < NumIn ft" by simp
  moreover from assms(2) have "calls (doPublish invoke h topic args) = [(callBack h, passed)]"
    "replyBody invoke h args =
         \<lparr>calls = [(callBack h, passed)], ending = Call invoke (callBack h) passed\<rparr>"
    by (simp_all add: doPublish_def replyBody_def)
  ultimately show ?thesis by simp
qed

theorem setUpPublish_positional_witness:
  "calls (doPublish example_invoke
       \<lparr>callBack = RV (TNamed ''main.Handler'' (TFunc [TInt, TString, TPtr TBool] False []))
          (DFunc 4 0)\<rparr> ''t''
       [Val TInt (DInt 7), Nil, Nil]) =
     [(RV (TNamed ''main.Handler'' (TFunc [TInt, TString, TPtr TBool] False [])) (DFunc 4 0),
       [RV TInt (DInt 7), RV TString (DStr ''''), RV (TPtr TBool) DNil])]"
proof -
  let ?h = "\<lparr>callBack = RV (TNamed ''main.Handler'' (TFunc [TInt, TString, TPtr TBool] False []))
          (DFunc 4 0)\<rparr>"
  have a: "Type (callBack ?h)
      = Inr (TNamed ''main.Handler'' (TFunc [TInt, TString, TPtr TBool] False []))" by simp
  have b: "setUpPublish ?h [Val TInt (DInt 7), Nil, Nil]
      = Inr [RV TInt (DInt 7), RV TString (DStr ''''), RV (TPtr TBool) DNil]"
    by (simp add: setUpPublish_def Zero_def)
  from setUpPublish_positional [OF a b, of example_invoke "''t''"] show ?thesis by simp
qed

text \<open>
  C10. \<^verbatim>\<open>setUpPublish\<close> panics exactly when some nil argument stands at a position
  that is not below the number of declared parameters of the callback (the variadic
  parameter counting as one), and returns normally exactly when every nil argument stands
  below it. When it panics, the goroutine panics with no call to the handler made.
\<close>

theorem setUpPublish_total_iff:
  assumes "Type (callBack h) = Inr ft"
  shows "((\<exists>f. setUpPublish h args = Inl f) \<longleftrightarrow>
            (\<exists>i < length args. args ! i = Nil \<and> NumIn ft \<le> i))
     \<and> ((\<exists>passed. setUpPublish h args = Inr passed) \<longleftrightarrow>
            (\<forall>i < length args. args ! i = Nil \<longrightarrow> i < NumIn ft))
     \<and> (\<forall>f. setUpPublish h args = Inl f \<longrightarrow>
            doPublish invoke h topic args = \<lparr>calls = [], ending = Panics f\<rparr>
          \<and> replyBody invoke h args = \<lparr>calls = [], ending = Panics f\<rparr>)"
proof -
  from assms have eq: "setUpPublish h args = setUpLoop ft 0 args"
    by (simp add: setUpPublish_def)
  have ret: "(\<exists>passed. setUpPublish h args = Inr passed) \<longleftrightarrow>
      (\<forall>i < length args. args ! i = Nil \<longrightarrow> i < NumIn ft)"
    using setUpLoop_returns [of ft 0 args] by (simp add: eq)
  have "(\<exists>f. setUpPublish h args = Inl f) \<longleftrightarrow> \<not> (\<exists>passed. setUpPublish h args = Inr passed)"
    by (cases "setUpPublish h args") auto
  with ret have flt: "(\<exists>f. setUpPublish h args = Inl f) \<longleftrightarrow>
      (\<exists>i < length args. args ! i = Nil \<and> NumIn ft \<le> i)"
    by (auto simp: not_less)
  have "\<forall>f. setUpPublish h args = Inl f \<longrightarrow>
        doPublish invoke h topic args = \<lparr>calls = [], ending = Panics f\<rparr>
      \<and> replyBody invoke h args = \<lparr>calls = [], ending = Panics f\<rparr>"
    by (simp add: doPublish_def replyBody_def)
  with ret flt show ?thesis by blast
qed

theorem setUpPublish_total_iff_witness:
  "setUpPublish \<lparr>callBack = RV (TFunc [TString] False [TString]) (DFunc 1 0)\<rparr>
       [Val TString (DStr ''world''), Nil] = Inl (IndexOutOfRange 1 1)
   \<and> doPublish example_invoke \<lparr>callBack = RV (TFunc [TString] False [TString]) (DFunc 1 0)\<rparr>
       ''greet'' [Val TString (DStr ''world''), Nil] =
       \<lparr>calls = [], ending = Panics (IndexOutOfRange 1 1)\<rparr>
   \<and> (\<exists>passed. setUpPublish \<lparr>callBack = RV (TFunc [TString] False [TString]) (DFunc 1 0)\<rparr> [Nil]
         = Inr passed)"
proof -
  have t: "Type (callBack \<lparr>callBack = RV (TFunc [TString] False [TString]) (DFunc 1 0)\<rparr>)
      = Inr (TFunc [TString] False [TString])" by simp
  have f: "setUpPublish \<lparr>callBack = RV (TFunc [TString] False [TString]) (DFunc 1 0)\<rparr>
       [Val TString (DStr ''world''), Nil] = Inl (IndexOutOfRange 1 1)"
    by (simp add: setUpPublish_def)
  from setUpPublish_total_iff [OF t, of "[Val TString (DStr ''world''), Nil]" example_invoke "''greet''"]
    setUpPublish_total_iff [OF t, of "[Nil]" example_invoke "''greet''"] f
  show ?thesis by simp
qed

section \<open>Faults of a reply's handler\<close>

text \<open>
  C9. On a topic with exactly one handler, when the invocation started by
  \<^verbatim>\<open>PublishWithReply\<close> panics, the goroutine recovers the panic and prints it, and sends
  nothing: the caller gets no value and the timeout error, after the whole timeout, and
  gets exactly what it gets when the handler never returns.
\<close>

theorem PublishWithReply_fault_is_timeout:
  assumes "handlers bus topic = Some [h]"
    and "ending (replyBody invoke h args) = Panics f"
  shows "replyTask invoke h args = Recovered f
     \<and> PublishWithReply invoke pick bus topic timeout args =
        \<lparr>reply_value = None, reply_err = Some (Timeout topic),
         launched = [ReplyTask h args], waited = nat timeout\<rparr>
     \<and> (\<forall>invoke'. ending (replyBody invoke' h args) = Hangs \<longrightarrow>
          PublishWithReply invoke' pick bus topic timeout args =
          PublishWithReply invoke pick bus topic timeout args)"
  using assms by (simp add: PublishWithReply_def replyTask_def)

theorem PublishWithReply_fault_is_timeout_witness:
  "replyTask example_invoke \<lparr>callBack = RV (TFunc [] False []) (DFunc 2 0)\<rparr> []
     = Recovered (HandlerPanic ''boom'')
   \<and> PublishWithReply example_invoke True (snd (Subscribe New ''boom'' boom)) ''boom'' 100 [] =
        \<lparr>reply_value = None, reply_err = Some (Timeout ''boom''),
         launched = [ReplyTask \<lparr>callBack = RV (TFunc [] False []) (DFunc 2 0)\<rparr> []],
         waited = 100\<rparr>
   \<and> PublishWithReply (\<lambda>p env ins. Hangs) True (snd (Subscribe New ''boom'' boom)) ''boom'' 100 [] =
     PublishWithReply example_invoke True (snd (Subscribe New ''boom'' boom)) ''boom'' 100 []"
proof -
  have a: "handlers (snd (Subscribe New ''boom'' boom)) ''boom''
      = Some [\<lparr>callBack = RV (TFunc [] False []) (DFunc 2 0)\<rparr>]"
    by (simp add: boom_def Subscribe_typed New_def topic_handlers_def)
  have b: "ending (replyBody example_invoke \<lparr>callBack = RV (TFunc [] False []) (DFunc 2 0)\<rparr> [])
      = Panics (HandlerPanic ''boom'')"
    by (simp add: replyBody_def setUpPublish_def example_invoke_def)
  have c: "ending (replyBody (\<lambda>p env ins. Hangs) \<lparr>callBack = RV (TFunc [] False []) (DFunc 2 0)\<rparr> [])
      = Hangs"
    by (simp add: replyBody_def setUpPublish_def)
  from PublishWithReply_fault_is_timeout [OF a b, of True 100] c show ?thesis by simp
qed

section \<open>The fire-and-forget dispatcher\<close>

lemma perform_appends:
  "\<exists>more. goroutines (perform invoke pick c w) = goroutines w @ more"
  by (cases c) simp_all

lemma perform_all_appends:
  "\<exists>more. goroutines (perform_all invoke pick cs w) = goroutines w @ more"
proof (induction cs arbitrary: w)
  case Nil
  show ?case by simp
next
  case (Cons c cs)
  from perform_appends [of invoke pick c w] obtain m1 where
    m1: "goroutines (perform invoke pick c w) = goroutines w @ m1" by blast
  from Cons.IH [of "perform invoke pick c w"] obtain m2 where
    "goroutines (perform_all invoke pick cs (perform invoke pick c w))
       = goroutines (perform invoke pick c w) @ m2" by blast
  with m1 show ?case by simp
qed

text \<open>
  C7. On a topic with at least one handler, \<^verbatim>\<open>Publish\<close> starts exactly one goroutine
  for each handler of the topic's sequence as it is at the call, in registration order, and
  each of them calls its handler exactly once (when the arguments can be prepared).
  \<^verbatim>\<open>Publish\<close> runs no handler itself and keeps no result: it leaves the bus as it is and
  gives nothing back. Calls made on the bus afterwards, \<^verbatim>\<open>Subscribe\<close> and
  \<^verbatim>\<open>Unsubscribe\<close> on the same topic among them, leave the goroutines of this
  \<^verbatim>\<open>Publish\<close> what they were.
\<close>

theorem Publish_starts_one_per_handler:
  assumes "handlers bus topic = Some hs" and "hs \<noteq> []"
  shows "Publish bus topic args = map (\<lambda>h. DoPublishTask h topic args) hs
     \<and> (\<forall>i < length hs. \<forall>passed. setUpPublish (hs ! i) args = Inr passed \<longrightarrow>
          task_calls invoke (Publish bus topic args ! i) = [(callBack (hs ! i), passed)])
     \<and> (the_bus w = bus \<longrightarrow>
          the_bus (perform invoke pick (PublishCall topic args) w) = bus
        \<and> take (length (goroutines w) + length hs)
            (goroutines (perform_all invoke pick cs (perform invoke pick (PublishCall topic args) w)))
          = goroutines w @ map (\<lambda>h. DoPublishTask h topic args) hs)"
proof -
  from assms have pub: "Publish bus topic args = map (\<lambda>h. DoPublishTask h topic args) hs"
    by (simp add: Publish_def)
  have each: "\<forall>i < length hs. \<forall>passed. setUpPublish (hs ! i) args = Inr passed \<longrightarrow>
      task_calls invoke (Publish bus topic args ! i) = [(callBack (hs ! i), passed)]"
    by (simp add: pub doPublish_def)
  have later: "the_bus w = bus \<longrightarrow>
          the_bus (perform invoke pick (PublishCall topic args) w) = bus
        \<and> take (length (goroutines w) + length hs)
            (goroutines (perform_all invoke pick cs (perform invoke pick (PublishCall topic args) w)))
          = goroutines w @ map (\<lambda>h. DoPublishTask h topic args) hs"
  proof
    assume w: "the_bus w = bus"
    from perform_all_appends [of invoke pick cs "perform invoke pick (PublishCall topic args) w"]
    obtain more where
      "goroutines (perform_all invoke pick cs (perform invoke pick (PublishCall topic args) w))
        = goroutines (perform invoke pick (PublishCall topic args) w) @ more" by blast
    with w pub show "the_bus (perform invoke pick (PublishCall topic args) w) = bus
        \<and> take (length (goroutines w) + length hs)
            (goroutines (perform_all invoke pick cs (perform invoke pick (PublishCall topic args) w)))
          = goroutines w @ map (\<lambda>h. DoPublishTask h topic args) hs"
      by simp
  qed
  from pub each later show ?thesis by blast
qed


theorem Publish_starts_one_per_handler_witness:
  "Publish tick_bus ''tick'' [Val TInt (DInt 3)] =
     [DoPublishTask \<lparr>callBack = RV (TFunc [TInt] False []) (DFunc 7 1)\<rparr> ''tick'' [Val TInt (DInt 3)],
      DoPublishTask \<lparr>callBack = RV (TFunc [TInt] False []) (DFunc 7 2)\<rparr> ''tick'' [Val TInt (DInt 3)]]
   \<and> task_calls example_invoke (Publish tick_bus ''tick'' [Val TInt (DInt 3)] ! 1) =
     [(RV (TFunc [TInt] False []) (DFunc 7 2), [RV TInt (DInt 3)])]
   \<and> take 2 (goroutines (perform_all example_invoke True
        [UnsubscribeCall ''tick'' (counter 1), UnsubscribeCall ''tick'' (counter 1),
         SubscribeCall ''tick'' greet]
        (perform example_invoke True (PublishCall ''tick'' [Val TInt (DInt 3)])
           \<lparr>the_bus = tick_bus, goroutines = []\<rparr>))) =
     [DoPublishTask \<lparr>callBack = RV (TFunc [TInt] False []) (DFunc 7 1)\<rparr> ''tick'' [Val TInt (DInt 3)],
      DoPublishTask \<lparr>callBack = RV (TFunc [TInt] False []) (DFunc 7 2)\<rparr> ''tick'' [Val TInt (DInt 3)]]"
proof -
  have hs: "handlers tick_bus ''tick'' =
      Some [\<lparr>callBack = RV (TFunc [TInt] False []) (DFunc 7 1)\<rparr>,
            \<lparr>callBack = RV (TFunc [TInt] False []) (DFunc 7 2)\<rparr>]"
    by (simp add: tick_bus_handlers)
  have ne: "[\<lparr>callBack = RV (TFunc [TInt] False []) (DFunc 7 1)\<rparr>,
            \<lparr>callBack = RV (TFunc [TInt] False []) (DFunc 7 2)\<rparr>] \<noteq> []"
    by simp
  let ?hs = "[\<lparr>callBack = RV (TFunc [TInt] False []) (DFunc 7 1)\<rparr>,
            \<lparr>callBack = RV (TFunc [TInt] False []) (DFunc 7 2)\<rparr>]"
  let ?w = "\<lparr>the_bus = tick_bus, goroutines = []\<rparr>"
  have lt: "1 < length ?hs" by simp
  have set_up: "setUpPublish (?hs ! 1) [Val TInt (DInt 3)] = Inr [RV TInt (DInt 3)]"
    by (simp add: setUpPublish_def)
  have w: "the_bus ?w = tick_bus" by simp
  note all = Publish_starts_one_per_handler [OF hs ne, of "[Val TInt (DInt 3)]" example_invoke
      ?w True
      "[UnsubscribeCall ''tick'' (counter 1), UnsubscribeCall ''tick'' (counter 1),
         SubscribeCall ''tick'' greet]"]
  from all have started: "Publish tick_bus ''tick'' [Val TInt (DInt 3)] =
      map (\<lambda>h. DoPublishTask h ''tick'' [Val TInt (DInt 3)]) ?hs"
    by (rule conjunct1)
  from all [THEN conjunct2, THEN conjunct1, rule_format, OF lt set_up]
  have called: "task_calls example_invoke (Publish tick_bus ''tick'' [Val TInt (DInt 3)] ! 1) =
      [(RV (TFunc [TInt] False []) (DFunc 7 2), [RV TInt (DInt 3)])]"
    by simp
  from all [THEN conjunct2, THEN conjunct2, rule_format, OF w, THEN conjunct2]
  have later: "take 2 (goroutines (perform_all example_invoke True
        [UnsubscribeCall ''tick'' (counter 1), UnsubscribeCall ''tick'' (counter 1),
         SubscribeCall ''tick'' greet]
        (perform example_invoke True (PublishCall ''tick'' [Val TInt (DInt 3)]) ?w))) =
      map (\<lambda>h. DoPublishTask h ''tick'' [Val TInt (DInt 3)]) ?hs"
    by (simp add: numeral_2_eq_2)
  from started called later show ?thesis by simp
qed

end
